theory Spec2Isabelle
  imports Main "HOL-Library.Word"
begin

section \<open>Attachment helpers (attachment_helpers.cpp)\<close>

subsection \<open>Values handed out by the transport library\<close>

text \<open>
  A \<open>z_owned_string_t\<close> is either a valid string, a length-delimited run of bytes, or
  the gravestone that \<open>z_bytes_deserialize_into_string\<close> leaves behind when the bytes
  are not text. \<open>z_string_check\<close> tells the two apart; the gravestone has length 0
  and no data.
\<close>

datatype z_owned_string = Gravestone | ZString string

fun z_string_check :: "z_owned_string \<Rightarrow> bool" where
  "z_string_check Gravestone = False"
| "z_string_check (ZString s) = True"

fun z_string_len :: "z_owned_string \<Rightarrow> nat" where
  "z_string_len Gravestone = 0"
| "z_string_len (ZString s) = length s"

fun z_string_data :: "z_owned_string \<Rightarrow> string" where
  "z_string_data Gravestone = []"
| "z_string_data (ZString s) = s"

text \<open>
  The key of a pair as it lies in memory once \<open>z_bytes_deserialize_into_string\<close> has
  made \<open>key_string\<close> of it. \<open>key_bytes\<close> are the \<open>z_string_len\<close> bytes of the key
  and \<open>z_string_data\<close> points at the first of them. They are
  length-delimited and no terminator belongs to them: \<open>key_beyond\<close> are the bytes
  that follow in memory, up to the next NUL byte (none when that byte comes first).
  The other functions of the sources read \<open>z_string_data\<close> together with
  \<open>z_string_len\<close> and add the terminator themselves where they need one.
\<close>

record key_string_t =
  key_bytes :: string
  key_beyond :: string

text \<open>
  An attachment is what \<open>z_bytes_get_iterator\<close>, \<open>z_bytes_iterator_next\<close> and
  \<open>z_bytes_deserialize_into_pair\<close> make of the received bytes: the pairs in producer
  order, each with its key and its value as deserialised into a string. The value is
  only read through its length, so what follows it in memory plays no part. The
  attachment with no pair is the empty byte buffer.
\<close>

type_synonym z_bytes = "(key_string_t \<times> z_owned_string) list"

definition z_bytes_is_empty :: "z_bytes \<Rightarrow> bool" where
  "z_bytes_is_empty attachment = (attachment = [])"

subsection \<open>C library functions\<close>

text \<open>
  \<open>strcmp\<close> reads both arguments as C strings: up to the first NUL byte. The end of
  a list stands for the first NUL byte that memory holds after the listed bytes. The
  result is the difference of the first two bytes that differ.
\<close>

fun strcmp :: "string \<Rightarrow> string \<Rightarrow> int" where
  "strcmp [] [] = 0"
| "strcmp [] (y # ys) = 0 - int (of_char y)"
| "strcmp (x # xs) [] = int (of_char x)"
| "strcmp (x # xs) (y # ys) =
     (if x = y then (if x = CHR 0x00 then 0 else strcmp xs ys)
      else int (of_char x) - int (of_char y))"

text \<open>The C string that a buffer holds: its bytes before the first NUL.\<close>

definition c_str :: "string \<Rightarrow> string" where
  "c_str s = takeWhile (\<lambda>c. c \<noteq> CHR 0x00) s"

definition isspace :: "char \<Rightarrow> bool" where
  "isspace c = (c \<in> set [CHR '' '', CHR 0x09, CHR 0x0A, CHR 0x0B, CHR 0x0C, CHR 0x0D])"

definition isdigit :: "char \<Rightarrow> bool" where
  "isdigit c = (48 \<le> (of_char c :: nat) \<and> (of_char c :: nat) \<le> 57)"

definition digit_value :: "char \<Rightarrow> int" where
  "digit_value c = int (of_char c) - 48"

text \<open>\<open>long\<close> has 64 bits (LP64), as \<open>int64_t\<close> has.\<close>

definition LONG_MAX :: int where
  "LONG_MAX = 9223372036854775807"

definition LONG_MIN :: int where
  "LONG_MIN = - 9223372036854775808"

definition ERANGE :: int where
  "ERANGE = 34"

text \<open>
  \<open>strtol(nptr, &endptr, 10)\<close> on a buffer that holds a NUL: white space is skipped,
  one sign is taken, then decimal digits. \<open>strtol_endptr\<close> is the offset of
  \<open>endptr\<close> from \<open>nptr\<close>; with no digit nothing is converted, the value is 0 and
  \<open>endptr\<close> is \<open>nptr\<close>. A value out of the range of \<open>long\<close> is clamped and sets
  \<open>errno\<close> to \<open>ERANGE\<close>; \<open>errno\<close> is 0 before the call.
\<close>

record strtol_result =
  strtol_num :: int
  strtol_endptr :: nat
  strtol_errno :: int

definition strtol :: "string \<Rightarrow> strtol_result" where
  "strtol nptr =
     (let ws = takeWhile isspace nptr;
          s1 = dropWhile isspace nptr;
          neg = (s1 \<noteq> [] \<and> hd s1 = CHR ''-'');
          sgn_len = (if s1 \<noteq> [] \<and> (hd s1 = CHR ''-'' \<or> hd s1 = CHR ''+'') then 1 else 0);
          ds = takeWhile isdigit (drop sgn_len s1);
          v = foldl (\<lambda>a c. a * 10 + digit_value c) 0 ds;
          e = length ws + sgn_len + length ds
      in if ds = [] then \<lparr>strtol_num = 0, strtol_endptr = 0, strtol_errno = 0\<rparr>
         else if neg then
           (if - v < LONG_MIN
            then \<lparr>strtol_num = LONG_MIN, strtol_endptr = e, strtol_errno = ERANGE\<rparr>
            else \<lparr>strtol_num = - v, strtol_endptr = e, strtol_errno = 0\<rparr>)
         else
           (if LONG_MAX < v
            then \<lparr>strtol_num = LONG_MAX, strtol_endptr = e, strtol_errno = ERANGE\<rparr>
            else \<lparr>strtol_num = v, strtol_endptr = e, strtol_errno = 0\<rparr>))"

text \<open>\<open>memcpy(dst, src, n)\<close> from a string into a buffer of \<open>uint8_t\<close>.\<close>

definition memcpy :: "8 word list \<Rightarrow> string \<Rightarrow> nat \<Rightarrow> 8 word list" where
  "memcpy dst src n = map of_char (take n src) @ drop n dst"

subsection \<open>get_attachment\<close>

text \<open>
  The \<open>while\<close> loop over the iterator: the pair is taken apart, its key compared with
  \<open>strcmp\<close>, and on a match the value is deserialised into \<open>val\<close> and the loop left.
  \<open>strcmp\<close> is given \<open>z_string_data\<close> of the key and not its \<open>z_string_len\<close>: it
  reads the key's bytes and on into the memory after them, until a NUL byte. The second
  argument is \<open>key.c_str()\<close>, which the lookup key's own NUL ends. The result is \<open>None\<close>
  while \<open>found\<close> is false. (The \<open>printf\<close> traces are left out.)
\<close>

fun get_attachment_loop :: "z_bytes \<Rightarrow> string \<Rightarrow> z_owned_string option" where
  "get_attachment_loop [] key = None"
| "get_attachment_loop ((key_string, val') # iter) key =
     (if strcmp (key_bytes key_string @ key_beyond key_string) key = 0 then Some val'
      else get_attachment_loop iter key)"

definition get_attachment :: "z_bytes \<Rightarrow> string \<Rightarrow> z_owned_string option" where
  "get_attachment attachment key =
     (if z_bytes_is_empty attachment then None
      else case get_attachment_loop attachment key of
             None \<Rightarrow> None
           | Some val \<Rightarrow> if \<not> z_string_check val then None else Some val)"

subsection \<open>get_gid_from_attachment\<close>

text \<open>Modelled from the spec: \<open>RMW_GID_STORAGE_SIZE\<close> (rmw/types.h), the 16 bytes of a GID.\<close>

definition RMW_GID_STORAGE_SIZE :: nat where
  "RMW_GID_STORAGE_SIZE = 16"

text \<open>
  The function returns its \<open>bool\<close> and the contents of the caller's \<open>gid\<close> buffer
  afterwards.
\<close>

definition get_gid_from_attachment :: "z_bytes \<Rightarrow> 8 word list \<Rightarrow> bool \<times> 8 word list" where
  "get_gid_from_attachment attachment gid =
     (case get_attachment attachment ''source_gid'' of
        None \<Rightarrow> (False, gid)
      | Some index \<Rightarrow>
          (let len = z_string_len index in
           if len \<noteq> RMW_GID_STORAGE_SIZE then (False, gid)
           else (True, memcpy gid (z_string_data index) len)))"

subsection \<open>get_int64_from_attachment\<close>

definition get_int64_from_attachment :: "z_bytes \<Rightarrow> string \<Rightarrow> int" where
  "get_int64_from_attachment attachment name =
     (if z_bytes_is_empty attachment then - 1
      else case get_attachment attachment name of
        None \<Rightarrow> - 1
      | Some index \<Rightarrow>
          (let len = z_string_len index in
           if len < 1 then - 1
           else if len > 19 then - 1
           else
             (let int64_str = take len (z_string_data index) @ [CHR 0x00];
                  r = strtol int64_str;
                  num = strtol_num r
              in if num = 0 then - 1
                 else if strtol_endptr r = 0 then - 1
                 else if int64_str ! strtol_endptr r \<noteq> CHR 0x00 then - 1
                 else if strtol_errno r \<noteq> 0 then - 1
                 else num)))"

subsection \<open>What the sender writes\<close>

text \<open>
  The canonical decimal text of an integer, as \<open>std::to_string\<close> writes it: a minus
  sign for a negative number, then the digits without leading zeros.
\<close>

function dec_nat :: "nat \<Rightarrow> string" where
  "dec_nat n =
     (if n < 10 then [char_of (48 + n)]
      else dec_nat (n div 10) @ [char_of (48 + n mod 10)])"
  by pat_completeness auto
termination
  by (relation "measure id") auto

definition dec_int :: "int \<Rightarrow> string" where
  "dec_int n = (if n < 0 then CHR ''-'' # dec_nat (nat (- n)) else dec_nat (nat n))"

text \<open>
  The lookup as the specification words it: the first pair whose key is the lookup key,
  byte for byte.
\<close>

fun lookup_exact :: "z_bytes \<Rightarrow> string \<Rightarrow> z_owned_string option" where
  "lookup_exact [] key = None"
| "lookup_exact ((k, v) # rest) key =
     (if key_bytes k = key then Some v else lookup_exact rest key)"

section \<open>Router check (zenoh_router_check.cpp)\<close>

text \<open>A \<open>z_id_t\<close> is its array \<open>id\<close> of 16 bytes, least significant byte first.\<close>

type_synonym z_id_t = "8 word list"

datatype rmw_ret_t = RMW_RET_OK | RMW_RET_ERROR

subsection \<open>ZidToStr\<close>

text \<open>The first loop: \<open>len\<close> is one more than the index of the last nonzero byte.\<close>

function ZidToStr_len :: "z_id_t \<Rightarrow> nat \<Rightarrow> int \<Rightarrow> int" where
  "ZidToStr_len pid i len =
     (if i < 16 then ZidToStr_len pid (i + 1) (if pid ! i \<noteq> 0 then int i + 1 else len)
      else len)"
  by pat_completeness auto
termination
  by (relation "measure (\<lambda>(pid, i, len). 16 - i)") auto

text \<open>
  What the stream writes for a non-negative \<open>int\<close> under \<open>std::hex\<close>: lowercase
  digits, no leading zero; \<open>std::setw\<close> with \<open>std::setfill\<close> pads on the left.
\<close>

definition hex_digit :: "nat \<Rightarrow> char" where
  "hex_digit d = ''0123456789abcdef'' ! d"

function hex_of_nat :: "nat \<Rightarrow> string" where
  "hex_of_nat n =
     (if n < 16 then [hex_digit n] else hex_of_nat (n div 16) @ [hex_digit (n mod 16)])"
  by pat_completeness auto
termination
  by (relation "measure id") auto

definition setw_setfill :: "nat \<Rightarrow> char \<Rightarrow> string \<Rightarrow> string" where
  "setw_setfill w c s = replicate (w - length s) c @ s"

text \<open>The second loop, from \<open>len - 1\<close> down to 0, appending to the stream \<open>ss\<close>.\<close>

function ZidToStr_hex :: "z_id_t \<Rightarrow> int \<Rightarrow> string \<Rightarrow> string" where
  "ZidToStr_hex pid i ss =
     (if 0 \<le> i
      then ZidToStr_hex pid (i - 1)
             (ss @ setw_setfill 2 (CHR ''0'') (hex_of_nat (unat (pid ! nat i))))
      else ss)"
  by pat_completeness auto
termination
  by (relation "measure (\<lambda>(pid, i, ss). nat (i + 1))") auto

definition ZidToStr :: "z_id_t \<Rightarrow> string" where
  "ZidToStr pid =
     (let len = ZidToStr_len pid 0 0
      in if len = 0 then [] else ZidToStr_hex pid (len - 1) [])"

subsection \<open>zenoh_router_check\<close>

datatype log_entry = LOG_INFO string | LOG_ERROR string

text \<open>
  The callback's context is the \<open>int\<close> counter; the log is kept beside it. A session is
  given by the router ids that \<open>z_info_routers_zid\<close> passes to the callback, one call
  after the other.
\<close>

type_synonym z_session_t = "z_id_t list"

definition callback :: "z_id_t \<Rightarrow> 32 word \<times> log_entry list \<Rightarrow> 32 word \<times> log_entry list" where
  "callback zid st =
     (case st of (ctx, log) \<Rightarrow>
        (ctx + 1,
         log @ [LOG_INFO (''A Zenoh router connected to the session with id '' @ [CHR 0x27]
                          @ ZidToStr zid @ [CHR 0x27])]))"

definition z_info_routers_zid ::
    "z_session_t \<Rightarrow> (z_id_t \<Rightarrow> 's \<Rightarrow> 's) \<Rightarrow> 's \<Rightarrow> 's" where
  "z_info_routers_zid session router_callback context = fold router_callback session context"

definition zenoh_router_check :: "z_session_t \<Rightarrow> rmw_ret_t \<times> log_entry list" where
  "zenoh_router_check session =
     (case z_info_routers_zid session callback (0, []) of (context, log) \<Rightarrow>
        if context = 0
        then (RMW_RET_ERROR, log @ [LOG_ERROR ''No Zenoh router connected to the session''])
        else (RMW_RET_OK,
              log @ [LOG_INFO (''There are '' @ dec_int (sint context)
                               @ '' Zenoh routers connected to the session'')]))"

text \<open>The largest value of the counter's type.\<close>

definition INT_MAX :: nat where
  "INT_MAX = 2147483647"

text \<open>
  The rendering as the specification words it: the zero bytes at the high end are
  stripped, the bytes that remain are written most significant first, two lowercase
  hexadecimal digits each.
\<close>

definition stripped_len :: "z_id_t \<Rightarrow> nat" where
  "stripped_len pid = length (dropWhile (\<lambda>b. b = 0) (rev pid))"

definition hex_byte :: "8 word \<Rightarrow> string" where
  "hex_byte b = [hex_digit (unat b div 16), hex_digit (unat b mod 16)]"

definition zid_render :: "z_id_t \<Rightarrow> string" where
  "zid_render pid = concat (map hex_byte (dropWhile (\<lambda>b. b = 0) (rev pid)))"

section \<open>Context (rmw_context_impl_s.cpp)\<close>

subsection \<open>State\<close>

text \<open>
  An owned handle of the transport library: not yet written, valid, or the gravestone
  left by \<open>z_move\<close>.
\<close>

datatype z_owned = Uninitialized | Valid | Moved

type_synonym z_result_t = int

definition Z_OK :: z_result_t where
  "Z_OK = 0"

datatype z_sample_kind_t = Z_SAMPLE_KIND_PUT | Z_SAMPLE_KIND_DELETE | Z_SAMPLE_KIND_OTHER

record z_loaned_sample_t =
  z_sample_keyexpr :: string
  z_sample_kind :: z_sample_kind_t

text \<open>
  Modelled from the spec: \<open>GraphCache\<close> (graph_cache.cpp is not among the sources)
  is consumed through its two verbs only, \<open>parse_put\<close> and \<open>parse_del\<close> on a key
  expression; it is kept as the list of the calls it has received. \<open>zenoh_call\<close> lists
  the calls that acquire or release resources of the transport.
\<close>

datatype graph_cache_call = parse_put string | parse_del string

datatype zenoh_call =
    zc_liveliness_declare_subscriber string
  | z_undeclare_subscriber
  | z_drop_shm_provider
  | z_close

text \<open>
  The members of \<open>rmw_context_impl_s::Data\<close>, named without the trailing
  underscore of the source. The graph cache is the list of calls it
  has received, the guard condition the number of times it has been triggered.
  \<open>zenoh_calls\<close> is not a member: it records, in order, the calls \<open>Data\<close> has made into
  the transport. Every function below holds the mutex from its first line to its return and is one
  atomic step.
\<close>

record Data =
  enclave :: string
  session :: z_owned
  shm_provider :: "z_owned option"
  liveliness_str :: string
  graph_cache :: "graph_cache_call list"
  graph_subscriber :: z_owned
  graph_guard_condition :: nat
  is_shutdown :: bool
  next_entity_id :: "64 word"
  is_initialized :: bool
  zenoh_calls :: "zenoh_call list"

text \<open>The constructor of \<open>Data\<close>, on an open session and a fresh graph cache.\<close>

definition Data_ctor :: "string \<Rightarrow> z_owned option \<Rightarrow> string \<Rightarrow> Data" where
  "Data_ctor enclave0 shm_provider0 liveliness_str0 =
     \<lparr>enclave = enclave0, session = Valid, shm_provider = shm_provider0,
      liveliness_str = liveliness_str0, graph_cache = [],
      graph_subscriber = Uninitialized, graph_guard_condition = 0,
      is_shutdown = False, next_entity_id = 0, is_initialized = False,
      zenoh_calls = []\<rparr>"

subsection \<open>graph_sub_data_handler\<close>

text \<open>
  Modelled from the spec: \<open>rmw_trigger_guard_condition\<close> (not among the sources)
  signals the guard condition; the call is counted. When it fails the handler only logs
  a warning.
\<close>

definition rmw_trigger_guard_condition :: "Data \<Rightarrow> Data" where
  "rmw_trigger_guard_condition d =
     d\<lparr>graph_guard_condition := graph_guard_condition d + 1\<rparr>"

text \<open>\<open>data\<close> is \<open>None\<close> for the null pointer.\<close>

definition graph_sub_data_handler :: "z_loaned_sample_t \<Rightarrow> Data option \<Rightarrow> Data option" where
  "graph_sub_data_handler sample data =
     (case data of
        None \<Rightarrow> None
      | Some data_ptr \<Rightarrow>
          if is_shutdown data_ptr then Some data_ptr
          else
            (let str = z_sample_keyexpr sample in
             case z_sample_kind sample of
               Z_SAMPLE_KIND_PUT \<Rightarrow>
                 Some (rmw_trigger_guard_condition
                   (data_ptr\<lparr>graph_cache := graph_cache data_ptr @ [parse_put str]\<rparr>))
             | Z_SAMPLE_KIND_DELETE \<Rightarrow>
                 Some (rmw_trigger_guard_condition
                   (data_ptr\<lparr>graph_cache := graph_cache data_ptr @ [parse_del str]\<rparr>))
             | Z_SAMPLE_KIND_OTHER \<Rightarrow> Some data_ptr))"

subsection \<open>subscribe_to_ros_graph\<close>

text \<open>
  \<open>declare_result\<close> is what \<open>zc_liveliness_declare_subscriber\<close> returns. When it is not
  \<open>Z_OK\<close> the scope exit undeclares the subscriber on the way out.
\<close>

definition subscribe_to_ros_graph :: "z_result_t \<Rightarrow> Data \<Rightarrow> rmw_ret_t \<times> Data" where
  "subscribe_to_ros_graph declare_result d =
     (if is_initialized d then (RMW_RET_OK, d)
      else
        (let d1 = d\<lparr>graph_subscriber := (if declare_result = Z_OK then Valid else Moved),
                     zenoh_calls := zenoh_calls d
                       @ [zc_liveliness_declare_subscriber (liveliness_str d)]\<rparr>
         in if declare_result \<noteq> Z_OK
            then (RMW_RET_ERROR,
                  d1\<lparr>graph_subscriber := Moved,
                     zenoh_calls := zenoh_calls d1 @ [z_undeclare_subscriber]\<rparr>)
            else (RMW_RET_OK, d1\<lparr>is_initialized := True\<rparr>)))"

subsection \<open>shutdown and the destructor\<close>

text \<open>\<open>close_result\<close> is what \<open>z_close\<close> returns.\<close>

definition shutdown :: "z_result_t \<Rightarrow> Data \<Rightarrow> rmw_ret_t \<times> Data" where
  "shutdown close_result d =
     (if is_shutdown d then (RMW_RET_OK, d)
      else
        (let d1 = d\<lparr>graph_subscriber := Moved,
                     zenoh_calls := zenoh_calls d @ [z_undeclare_subscriber]\<rparr>;
             d2 = (if shm_provider d1 \<noteq> None
                   then d1\<lparr>shm_provider := Some Moved,
                           zenoh_calls := zenoh_calls d1 @ [z_drop_shm_provider]\<rparr>
                   else d1);
             d3 = d2\<lparr>session := Moved, zenoh_calls := zenoh_calls d2 @ [z_close]\<rparr>
         in if close_result \<noteq> Z_OK then (RMW_RET_ERROR, d3)
            else (RMW_RET_OK, d3\<lparr>is_shutdown := True\<rparr>)))"

definition Data_dtor :: "z_result_t \<Rightarrow> Data \<Rightarrow> Data" where
  "Data_dtor close_result d = snd (shutdown close_result d)"

section \<open>Properties of the attachment helpers\<close>

declare dec_nat.simps [simp del]
declare hex_of_nat.simps [simp del]
declare ZidToStr_len.simps [simp del]
declare ZidToStr_hex.simps [simp del]

subsection \<open>Key comparison\<close>

lemma of_char_eq_0_iff: "((of_char c :: nat) = 0) = (c = CHR 0x00)"
proof -
  have "(of_char c :: nat) = of_char (CHR 0x00) \<longleftrightarrow> c = CHR 0x00"
    by (rule of_char_eq_iff)
  then show ?thesis by simp
qed

lemma strcmp_eq_0_iff: "(strcmp a b = 0) = (c_str a = c_str b)"
proof (induction a b rule: strcmp.induct)
  case 1
  show ?case by (simp add: c_str_def)
next
  case (2 y ys)
  show ?case by (auto simp add: c_str_def of_char_eq_0_iff)
next
  case (3 x xs)
  show ?case by (auto simp add: c_str_def of_char_eq_0_iff)
next
  case (4 x xs y ys)
  show ?case
  proof (cases "x = y")
    case True
    then show ?thesis using 4 by (simp add: c_str_def)
  next
    case False
    then have "(of_char x :: nat) \<noteq> of_char y" by simp
    then have "int (of_char x) - int (of_char y) \<noteq> 0" by simp
    then show ?thesis using False by (auto simp add: c_str_def)
  qed
qed

lemma c_str_no_NUL: "CHR 0x00 \<notin> set s \<Longrightarrow> c_str s = s"
  by (auto simp add: c_str_def takeWhile_eq_all_conv)

lemma get_attachment_loop_first_match:
  assumes "\<forall>p \<in> set pre. c_str (key_bytes (fst p) @ key_beyond (fst p)) \<noteq> c_str key"
    and "c_str (key_bytes k @ key_beyond k) = c_str key"
  shows "get_attachment_loop (pre @ (k, v) # post) key = Some v"
  using assms by (induction pre) (auto simp add: strcmp_eq_0_iff)

text \<open>
  What the loop does: it stops at the first pair for which the memory at the key, read up
  to the first NUL byte, is the lookup key read up to its first NUL byte. The pairs
  after it are not looked at.
\<close>

lemma get_attachment_first_strcmp_match:
  assumes "\<forall>p \<in> set pre. c_str (key_bytes (fst p) @ key_beyond (fst p)) \<noteq> c_str key"
    and "c_str (key_bytes k @ key_beyond k) = c_str key"
  shows "get_attachment (pre @ (k, v) # post) key = (if z_string_check v then Some v else None)"
  using get_attachment_loop_first_match [OF assms]
  by (simp add: get_attachment_def z_bytes_is_empty_def)

lemma get_attachment_loop_exact:
  assumes "CHR 0x00 \<notin> set key"
    and "\<forall>p \<in> set attachment. CHR 0x00 \<notin> set (key_bytes (fst p)) \<and> key_beyond (fst p) = []"
  shows "get_attachment_loop attachment key = lookup_exact attachment key"
  using assms by (induction attachment) (auto simp add: strcmp_eq_0_iff c_str_no_NUL)

text \<open>
  The comparison is the byte-for-byte one only where memory happens to hold a NUL byte
  right after every key and no key holds one itself.
\<close>

lemma get_attachment_exact_when_terminated:
  assumes "CHR 0x00 \<notin> set key"
    and "\<forall>p \<in> set attachment. CHR 0x00 \<notin> set (key_bytes (fst p)) \<and> key_beyond (fst p) = []"
  shows "get_attachment attachment key =
         (case lookup_exact attachment key of
            None \<Rightarrow> None
          | Some v \<Rightarrow> if z_string_check v then Some v else None)"
proof (cases attachment)
  case Nil
  then show ?thesis by (simp add: get_attachment_def z_bytes_is_empty_def)
next
  case (Cons p ps)
  then show ?thesis
    using get_attachment_loop_exact [OF assms]
    by (simp add: get_attachment_def z_bytes_is_empty_def split: option.splits)
qed

subsection \<open>Decimal text and strtol\<close>

lemma isdigit_char_of: "d < 10 \<Longrightarrow> isdigit (char_of (48 + (d :: nat)))"
  by (simp add: isdigit_def)

lemma digit_value_char_of: "d < 10 \<Longrightarrow> digit_value (char_of (48 + (d :: nat))) = int d"
  by (simp add: digit_value_def)

lemma dec_nat_digits: "c \<in> set (dec_nat n) \<Longrightarrow> isdigit c"
proof (induction n rule: dec_nat.induct)
  case (1 n)
  show ?case
  proof (cases "n < 10")
    case True
    then show ?thesis
      using "1.prems" by (subst (asm) dec_nat.simps) (auto simp add: isdigit_char_of)
  next
    case False
    then show ?thesis
      using "1.prems" "1.IH" by (subst (asm) dec_nat.simps) (auto simp add: isdigit_char_of)
  qed
qed

lemma dec_nat_value: "foldl (\<lambda>a c. a * 10 + digit_value c) 0 (dec_nat n) = int n"
proof (induction n rule: dec_nat.induct)
  case (1 n)
  show ?case
  proof (cases "n < 10")
    case True
    then show ?thesis
      by (subst dec_nat.simps) (simp add: digit_value_char_of)
  next
    case False
    have "int (n div 10 * 10 + n mod 10) = int n"
      by simp
    then have "int (n div 10) * 10 + int (n mod 10) = int n"
      by (simp only: of_nat_add of_nat_mult of_nat_numeral)
    then show ?thesis
      using False "1.IH" by (subst dec_nat.simps) (simp add: digit_value_char_of)
  qed
qed

lemma dec_nat_not_Nil: "dec_nat n \<noteq> []"
  by (subst dec_nat.simps) simp

lemma isdigit_not_isspace: "isdigit c \<Longrightarrow> \<not> isspace c"
  by (auto simp add: isdigit_def isspace_def)

lemma isdigit_not_sign: "isdigit c \<Longrightarrow> c \<noteq> CHR ''-'' \<and> c \<noteq> CHR ''+''"
  by (auto simp add: isdigit_def)

lemma NUL_not_isdigit: "\<not> isdigit (CHR 0x00)"
  by (simp add: isdigit_def)

lemma minus_not_isspace: "\<not> isspace (CHR ''-'')"
  by (simp add: isspace_def)

lemma takeWhile_isdigit_dec_nat: "takeWhile isdigit (dec_nat m @ [CHR 0x00]) = dec_nat m"
  by (simp add: takeWhile_append2 dec_nat_digits NUL_not_isdigit)

lemma strtol_dec_nat:
  assumes "int m \<le> LONG_MAX"
  shows "strtol (dec_nat m @ [CHR 0x00]) =
         \<lparr>strtol_num = int m, strtol_endptr = length (dec_nat m), strtol_errno = 0\<rparr>"
proof -
  obtain d ds where eq: "dec_nat m = d # ds"
    using dec_nat_not_Nil [of m] by (cases "dec_nat m") auto
  then have d: "isdigit d"
    using dec_nat_digits [of d m] by simp
  have tw: "takeWhile isdigit (d # ds @ [CHR 0x00]) = d # ds"
    using takeWhile_isdigit_dec_nat [of m] by (simp only: eq append_Cons)
  have v: "foldl (\<lambda>a c. a * 10 + digit_value c) 0 (d # ds) = int m"
    using dec_nat_value [of m] by (simp only: eq)
  have ws: "takeWhile isspace (d # ds @ [CHR 0x00]) = []"
    using isdigit_not_isspace [OF d] by simp
  have s1: "dropWhile isspace (d # ds @ [CHR 0x00]) = d # ds @ [CHR 0x00]"
    using isdigit_not_isspace [OF d] by simp
  show ?thesis
    using assms isdigit_not_sign [OF d]
    by (simp add: strtol_def eq ws s1 tw v Let_def
        del: foldl_Cons takeWhile.simps dropWhile.simps)
qed

lemma strtol_minus_dec_nat:
  assumes "LONG_MIN \<le> - int m"
  shows "strtol (CHR ''-'' # dec_nat m @ [CHR 0x00]) =
         \<lparr>strtol_num = - int m, strtol_endptr = Suc (length (dec_nat m)), strtol_errno = 0\<rparr>"
  using assms
  by (simp add: strtol_def minus_not_isspace takeWhile_isdigit_dec_nat dec_nat_value
      dec_nat_not_Nil Let_def)

lemma strtol_dec_int:
  assumes "LONG_MIN \<le> n" and "n \<le> LONG_MAX"
  shows "strtol (dec_int n @ [CHR 0x00]) =
         \<lparr>strtol_num = n, strtol_endptr = length (dec_int n), strtol_errno = 0\<rparr>"
proof (cases "n < 0")
  case True
  then show ?thesis
    using assms strtol_minus_dec_nat [of "nat (- n)"] by (simp add: dec_int_def)
next
  case False
  then show ?thesis
    using assms strtol_dec_nat [of "nat n"] by (simp add: dec_int_def)
qed

lemma strtol_zero:
  "strtol (''0'' @ [CHR 0x00]) = \<lparr>strtol_num = 0, strtol_endptr = 1, strtol_errno = 0\<rparr>"
  by (simp add: strtol_def isspace_def isdigit_def digit_value_def LONG_MAX_def)

lemma get_int64_of_text:
  assumes "get_attachment attachment name = Some (ZString text)"
    and "1 \<le> length text" and "length text \<le> 19"
    and "strtol (text @ [CHR 0x00]) =
         \<lparr>strtol_num = n, strtol_endptr = length text, strtol_errno = 0\<rparr>"
  shows "get_int64_from_attachment attachment name = (if n = 0 then - 1 else n)"
proof -
  have "attachment \<noteq> []"
    using assms(1) by (auto simp add: get_attachment_def z_bytes_is_empty_def)
  moreover have "text \<noteq> []"
    using assms(2) by auto
  ultimately show ?thesis
    using assms
    by (simp add: get_int64_from_attachment_def z_bytes_is_empty_def Let_def)
qed

lemma get_int64_bad_length:
  assumes "get_attachment attachment name = Some index"
    and "z_string_len index = 0 \<or> 19 < z_string_len index"
  shows "get_int64_from_attachment attachment name = - 1"
  using assms by (auto simp add: get_int64_from_attachment_def Let_def)

lemma dec_int_max: "dec_int 9223372036854775807 = ''9223372036854775807''"
  by (simp add: dec_int_def dec_nat.simps char_of_eq_iff)

lemma dec_int_42: "dec_int 42 = ''42''"
  by (simp add: dec_int_def dec_nat.simps char_of_eq_iff)

text \<open>
  The conversion by itself is right. Once the lookup has handed over the text: the
  canonical decimal text of a nonzero 64-bit integer \<open>n\<close> of at most 19 characters
  gives \<open>n\<close>, the literal \<open>0\<close> gives the sentinel, and so does a text that is empty or
  longer than 19 characters.
\<close>

lemma get_int64_of_found_text:
  assumes "get_attachment attachment name = Some (ZString text)"
  shows "(n \<noteq> 0 \<and> LONG_MIN \<le> n \<and> n \<le> LONG_MAX \<and> length (dec_int n) \<le> 19 \<and>
          text = dec_int n
            \<longrightarrow> get_int64_from_attachment attachment name = n) \<and>
         (text = ''0'' \<longrightarrow> get_int64_from_attachment attachment name = - 1) \<and>
         (length text = 0 \<or> 19 < length text
            \<longrightarrow> get_int64_from_attachment attachment name = - 1)"
proof (intro conjI impI)
  assume a: "n \<noteq> 0 \<and> LONG_MIN \<le> n \<and> n \<le> LONG_MAX \<and> length (dec_int n) \<le> 19 \<and>
             text = dec_int n"
  then have "1 \<le> length (dec_int n)"
    using dec_nat_not_Nil by (auto simp add: dec_int_def Suc_le_eq)
  then show "get_int64_from_attachment attachment name = n"
    using a assms get_int64_of_text [of attachment name "dec_int n" n] strtol_dec_int [of n]
    by simp
next
  assume "text = ''0''"
  then show "get_int64_from_attachment attachment name = - 1"
    using assms get_int64_of_text [of attachment name "''0''" 0] strtol_zero by simp
next
  assume "length text = 0 \<or> 19 < length text"
  then show "get_int64_from_attachment attachment name = - 1"
    using assms get_int64_bad_length [of attachment name "ZString text"] by simp
qed

text \<open>
  With it the round trip holds for the attachments in which the pair that carries the
  text is the first that \<open>strcmp\<close> takes for the key; that is so where the key has no
  NUL byte, a NUL byte follows it in memory and no earlier pair compares equal.
\<close>

lemma get_int64_roundtrip_when_terminated:
  assumes "\<forall>p \<in> set pre. c_str (key_bytes (fst p) @ key_beyond (fst p)) \<noteq> c_str name"
    and "CHR 0x00 \<notin> set name"
    and "n \<noteq> 0" and "LONG_MIN \<le> n" and "n \<le> LONG_MAX" and "length (dec_int n) \<le> 19"
  shows "get_int64_from_attachment
           (pre @ (\<lparr>key_bytes = name, key_beyond = []\<rparr>, ZString (dec_int n)) # post) name = n"
proof -
  have "get_attachment
          (pre @ (\<lparr>key_bytes = name, key_beyond = []\<rparr>, ZString (dec_int n)) # post) name
        = Some (ZString (dec_int n))"
    using get_attachment_first_strcmp_match
      [OF assms(1), of "\<lparr>key_bytes = name, key_beyond = []\<rparr>" "ZString (dec_int n)" post]
    by simp
  then show ?thesis
    using get_int64_of_found_text [of _ name "dec_int n" n] assms by blast
qed

lemma get_int64_roundtrip_example:
  "get_int64_from_attachment
     [(\<lparr>key_bytes = ''sequence_number'', key_beyond = []\<rparr>, ZString ''9223372036854775807'')]
     ''sequence_number'' = 9223372036854775807"
proof -
  have "get_int64_from_attachment
     ([] @ (\<lparr>key_bytes = ''sequence_number'', key_beyond = []\<rparr>,
            ZString (dec_int 9223372036854775807)) # []) ''sequence_number''
     = 9223372036854775807"
    by (rule get_int64_roundtrip_when_terminated)
       (simp_all add: LONG_MIN_def LONG_MAX_def dec_int_max)
  then show ?thesis
    by (simp add: dec_int_max)
qed

subsection \<open>The claims on the attachment helpers\<close>

text \<open>
  C1. Whenever the value found under the key is parsed by \<open>strtol\<close> to the number 0,
  \<open>get_int64_from_attachment\<close> returns the sentinel \<open>-1\<close>, the value it also returns
  when the lookup fails: a parsed 0 is handled as a failure.
\<close>

theorem get_int64_zero_is_sentinel:
  "(get_attachment attachment name = None \<longrightarrow>
      get_int64_from_attachment attachment name = - 1) \<and>
   (\<forall>index. get_attachment attachment name = Some index \<and>
        strtol_num (strtol (z_string_data index @ [CHR 0x00])) = 0 \<longrightarrow>
        get_int64_from_attachment attachment name = - 1)"
proof -
  have "take (z_string_len index) (z_string_data index) = z_string_data index" for index
    by (cases index) simp_all
  then show ?thesis
    by (auto simp add: get_int64_from_attachment_def Let_def split: option.splits)
qed

theorem get_int64_zero_is_sentinel_witness:
  "get_attachment
     [(\<lparr>key_bytes = ''sequence_number'', key_beyond = []\<rparr>, ZString ''0'')] ''sequence_number''
     = Some (ZString ''0'') \<and>
   strtol (''0'' @ [CHR 0x00]) = \<lparr>strtol_num = 0, strtol_endptr = 1, strtol_errno = 0\<rparr> \<and>
   get_int64_from_attachment
     [(\<lparr>key_bytes = ''sequence_number'', key_beyond = []\<rparr>, ZString ''0'')] ''sequence_number''
     = - 1 \<and>
   get_attachment
     [(\<lparr>key_bytes = ''source_gid'', key_beyond = []\<rparr>, ZString ''0'')] ''sequence_number''
     = None \<and>
   get_int64_from_attachment
     [(\<lparr>key_bytes = ''source_gid'', key_beyond = []\<rparr>, ZString ''0'')] ''sequence_number''
     = - 1"
proof -
  let ?seq = "[(\<lparr>key_bytes = ''sequence_number'', key_beyond = []\<rparr>, ZString ''0'')]"
  let ?gid = "[(\<lparr>key_bytes = ''source_gid'', key_beyond = []\<rparr>, ZString ''0'')]"
  have found: "get_attachment ?seq ''sequence_number'' = Some (ZString ''0'')"
    by (simp add: get_attachment_def z_bytes_is_empty_def)
  have absent: "get_attachment ?gid ''sequence_number'' = None"
    by (simp add: get_attachment_def z_bytes_is_empty_def)
  have zero: "strtol_num (strtol (z_string_data (ZString ''0'') @ [CHR 0x00])) = 0"
    using strtol_zero by simp
  show ?thesis
    using found absent zero strtol_zero
      get_int64_zero_is_sentinel [of ?seq "''sequence_number''"]
      get_int64_zero_is_sentinel [of ?gid "''sequence_number''"]
    by blast
qed

text \<open>
  C2. The lookup is to stop at the first pair whose key is the lookup key byte for byte
  and to return its value, as \<open>lookup_exact\<close> does. \<open>get_attachment\<close> does not: it
  hands \<open>strcmp\<close> the key's data without the key's length. In the first attachment
  below a key \<open>k\<close>, NUL, \<open>x\<close> comes before two pairs of key \<open>k\<close>: the lookup of \<open>k\<close>
  returns the value of that other key and not the value of the first \<open>k\<close>. In the
  second the two keys are \<open>k\<close> and memory holds an \<open>x\<close> after each: the lookup of \<open>k\<close>
  finds neither.
\<close>

theorem get_attachment_ignores_key_length:
  "get_attachment
     [(\<lparr>key_bytes = [CHR ''k'', CHR 0x00, CHR ''x''], key_beyond = []\<rparr>, ZString ''A''),
      (\<lparr>key_bytes = ''k'', key_beyond = []\<rparr>, ZString ''B''),
      (\<lparr>key_bytes = ''k'', key_beyond = []\<rparr>, ZString ''C'')] ''k''
     = Some (ZString ''A'') \<and>
   lookup_exact
     [(\<lparr>key_bytes = [CHR ''k'', CHR 0x00, CHR ''x''], key_beyond = []\<rparr>, ZString ''A''),
      (\<lparr>key_bytes = ''k'', key_beyond = []\<rparr>, ZString ''B''),
      (\<lparr>key_bytes = ''k'', key_beyond = []\<rparr>, ZString ''C'')] ''k''
     = Some (ZString ''B'') \<and>
   get_attachment
     [(\<lparr>key_bytes = ''k'', key_beyond = ''x''\<rparr>, ZString ''A''),
      (\<lparr>key_bytes = ''k'', key_beyond = ''x''\<rparr>, ZString ''B'')] ''k''
     = None \<and>
   lookup_exact
     [(\<lparr>key_bytes = ''k'', key_beyond = ''x''\<rparr>, ZString ''A''),
      (\<lparr>key_bytes = ''k'', key_beyond = ''x''\<rparr>, ZString ''B'')] ''k''
     = Some (ZString ''A'')"
  by (simp add: get_attachment_def z_bytes_is_empty_def)

text \<open>
  C3. \<open>get_gid_from_attachment\<close> succeeds exactly when the lookup of \<open>source_gid\<close>
  succeeds with a value of 16 bytes; it then leaves those 16 bytes in the caller's
  buffer. In every other case, a present key with another length included, it fails and
  leaves the buffer as it was.
\<close>

theorem get_gid_from_attachment_iff:
  "(fst (get_gid_from_attachment attachment gid) \<longleftrightarrow>
      (\<exists>index. get_attachment attachment ''source_gid'' = Some index \<and>
               z_string_len index = 16)) \<and>
   (\<forall>index. get_attachment attachment ''source_gid'' = Some index \<and>
        z_string_len index = 16 \<and> length gid = 16 \<longrightarrow>
        snd (get_gid_from_attachment attachment gid) = map of_char (z_string_data index)) \<and>
   (\<not> fst (get_gid_from_attachment attachment gid) \<longrightarrow>
        snd (get_gid_from_attachment attachment gid) = gid)"
proof -
  have "length (z_string_data index) = z_string_len index" for index
    by (cases index) simp_all
  then show ?thesis
    by (auto simp add: get_gid_from_attachment_def RMW_GID_STORAGE_SIZE_def memcpy_def Let_def
        split: option.splits)
qed

theorem get_gid_from_attachment_iff_witness:
  "get_attachment
     [(\<lparr>key_bytes = ''source_gid'', key_beyond = []\<rparr>, ZString (replicate 16 (CHR 0xAB)))]
     ''source_gid''
     = Some (ZString (replicate 16 (CHR 0xAB))) \<and>
   z_string_len (ZString (replicate 16 (CHR 0xAB))) = 16 \<and>
   length (replicate 16 (0 :: 8 word)) = 16 \<and>
   get_gid_from_attachment
     [(\<lparr>key_bytes = ''source_gid'', key_beyond = []\<rparr>, ZString (replicate 16 (CHR 0xAB)))]
     (replicate 16 0)
     = (True, replicate 16 0xAB) \<and>
   get_attachment
     [(\<lparr>key_bytes = ''source_gid'', key_beyond = []\<rparr>, ZString (replicate 8 (CHR 0xAB)))]
     ''source_gid''
     = Some (ZString (replicate 8 (CHR 0xAB))) \<and>
   get_gid_from_attachment
     [(\<lparr>key_bytes = ''source_gid'', key_beyond = []\<rparr>, ZString (replicate 8 (CHR 0xAB)))]
     (replicate 16 0)
     = (False, replicate 16 0)"
proof -
  let ?g16 = "ZString (replicate 16 (CHR 0xAB))" and ?g8 = "ZString (replicate 8 (CHR 0xAB))"
  let ?key = "\<lparr>key_bytes = ''source_gid'', key_beyond = []\<rparr>"
  have f16: "get_attachment [(?key, ?g16)] ''source_gid'' = Some ?g16"
    by (simp add: get_attachment_def z_bytes_is_empty_def)
  have f8: "get_attachment [(?key, ?g8)] ''source_gid'' = Some ?g8"
    by (simp add: get_attachment_def z_bytes_is_empty_def)
  have l16: "z_string_len ?g16 = 16" and l8: "z_string_len ?g8 \<noteq> 16"
    by simp_all
  have bytes: "map of_char (z_string_data ?g16) = replicate 16 (0xAB :: 8 word)"
    by simp
  have ok: "fst (get_gid_from_attachment [(?key, ?g16)] (replicate 16 0))"
    using get_gid_from_attachment_iff [of "[(?key, ?g16)]" "replicate 16 0"] f16 l16
    by blast
  have out: "snd (get_gid_from_attachment [(?key, ?g16)] (replicate 16 0))
             = replicate 16 0xAB"
    using get_gid_from_attachment_iff [of "[(?key, ?g16)]" "replicate 16 0"] f16 l16
      bytes by simp
  have bad: "\<not> fst (get_gid_from_attachment [(?key, ?g8)] (replicate 16 0))"
    using get_gid_from_attachment_iff [of "[(?key, ?g8)]" "replicate 16 0"] f8 l8
    by auto
  then have same: "snd (get_gid_from_attachment [(?key, ?g8)] (replicate 16 0))
             = replicate 16 0"
    using get_gid_from_attachment_iff [of "[(?key, ?g8)]" "replicate 16 0"]
    by blast
  show ?thesis
    using f16 f8 l16 ok out bad same by (simp add: prod_eq_iff)
qed

text \<open>
  C4. An attachment that carries the canonical decimal text of \<open>n\<close> under the looked-up
  key is to give \<open>n\<close>. \<open>get_int64_from_attachment\<close> converts the text it is handed as
  specified (\<open>get_int64_of_found_text\<close>), but it is handed the text by
  \<open>get_attachment\<close>, which compares the keys without their length. In the first
  attachment below \<open>42\<close> stands under \<open>sequence_number\<close>, after a pair whose key is
  \<open>sequence_number\<close>, NUL, \<open>x\<close> with the text \<open>5\<close>: the result is 5. In the second
  \<open>42\<close> stands under \<open>sequence_number\<close> and memory holds an \<open>x\<close> after the key: the
  result is the sentinel.
\<close>

theorem get_int64_from_attachment_wrong_pair:
  "lookup_exact
     [(\<lparr>key_bytes = ''sequence_number'' @ [CHR 0x00, CHR ''x''], key_beyond = []\<rparr>,
       ZString ''5''),
      (\<lparr>key_bytes = ''sequence_number'', key_beyond = []\<rparr>, ZString ''42'')]
     ''sequence_number'' = Some (ZString (dec_int 42)) \<and>
   get_int64_from_attachment
     [(\<lparr>key_bytes = ''sequence_number'' @ [CHR 0x00, CHR ''x''], key_beyond = []\<rparr>,
       ZString ''5''),
      (\<lparr>key_bytes = ''sequence_number'', key_beyond = []\<rparr>, ZString ''42'')]
     ''sequence_number'' = 5 \<and>
   lookup_exact
     [(\<lparr>key_bytes = ''sequence_number'', key_beyond = ''x''\<rparr>, ZString ''42'')]
     ''sequence_number'' = Some (ZString (dec_int 42)) \<and>
   get_int64_from_attachment
     [(\<lparr>key_bytes = ''sequence_number'', key_beyond = ''x''\<rparr>, ZString ''42'')]
     ''sequence_number'' = - 1"
  by (simp add: dec_int_42 get_int64_from_attachment_def get_attachment_def z_bytes_is_empty_def
      strtol_def isspace_def isdigit_def digit_value_def LONG_MAX_def)

section \<open>Properties of the router check\<close>

lemma callback_count:
  "fst (fold callback routers (ctx, log)) = ctx + of_nat (length routers)"
  by (induction routers arbitrary: ctx log) (simp_all add: callback_def)

lemma counter_zero_iff:
  assumes "n \<le> INT_MAX"
  shows "((of_nat n :: 32 word) = 0) = (n = 0)"
proof -
  have "n < 2 ^ 32" using assms by (simp add: INT_MAX_def)
  then have "(2 ^ 32 dvd n) = (n = 0)"
    by (auto dest: nat_dvd_not_less)
  then show ?thesis by (simp add: word_of_nat_eq_0_iff)
qed

lemma counter_sint:
  assumes "n \<le> INT_MAX"
  shows "sint (of_nat n :: 32 word) = int n"
proof -
  have "int n < 2 ^ 31" using assms by (simp add: INT_MAX_def)
  then have "signed_take_bit 31 (int n) = int n"
    by (intro signed_take_bit_int_eq_self) simp_all
  then show ?thesis by (simp add: signed_of_nat)
qed

text \<open>
  C8. The counter ends at the number of calls of the callback, one per router id and
  whatever the ids are, and the check succeeds exactly when that number is at least 1;
  with no reply it is an error. The counter is an \<open>int\<close>: the statement is for the
  reply counts it can hold, up to \<open>INT_MAX\<close>.
\<close>

theorem zenoh_router_check_iff:
  assumes "length routers \<le> INT_MAX"
  shows "sint (fst (z_info_routers_zid routers callback (0, []))) = int (length routers) \<and>
         (fst (zenoh_router_check routers) = RMW_RET_OK) = (1 \<le> length routers) \<and>
         (fst (zenoh_router_check routers) = RMW_RET_ERROR) = (length routers = 0)"
proof -
  have c: "fst (z_info_routers_zid routers callback (0, [])) = of_nat (length routers)"
    by (simp add: z_info_routers_zid_def callback_count)
  have z: "((of_nat (length routers) :: 32 word) = 0) = (length routers = 0)"
    using assms by (rule counter_zero_iff)
  have "fst (zenoh_router_check routers) =
           (if fst (z_info_routers_zid routers callback (0, [])) = 0
            then RMW_RET_ERROR else RMW_RET_OK)"
    by (simp add: zenoh_router_check_def split: prod.splits)
  then have r: "fst (zenoh_router_check routers) =
           (if length routers = 0 then RMW_RET_ERROR else RMW_RET_OK)"
    by (simp only: c z)
  have count: "sint (fst (z_info_routers_zid routers callback (0, []))) = int (length routers)"
    using counter_sint [OF assms] by (simp only: c)
  have ok: "(fst (zenoh_router_check routers) = RMW_RET_OK) = (1 \<le> length routers)"
    using r by (cases routers) simp_all
  have err: "(fst (zenoh_router_check routers) = RMW_RET_ERROR) = (length routers = 0)"
    using r by (cases routers) simp_all
  show ?thesis
    by (intro conjI) (rule count ok err)+
qed

theorem zenoh_router_check_iff_witness:
  "length [replicate 16 (1 :: 8 word), replicate 16 2] \<le> INT_MAX \<and>
   fst (zenoh_router_check [replicate 16 1, replicate 16 2]) = RMW_RET_OK \<and>
   sint (fst (z_info_routers_zid [replicate 16 1, replicate 16 2] callback (0, []))) = 2 \<and>
   fst (zenoh_router_check []) = RMW_RET_ERROR"
proof -
  have two: "length [replicate 16 (1 :: 8 word), replicate 16 2] \<le> INT_MAX"
    and none: "length ([] :: z_id_t list) \<le> INT_MAX"
    by (simp_all add: INT_MAX_def)
  show ?thesis
    using two zenoh_router_check_iff [OF two] zenoh_router_check_iff [OF none] by simp
qed

subsection \<open>ZidToStr\<close>

lemma hex_of_nat_digit: "n < 16 \<Longrightarrow> hex_of_nat n = [hex_digit n]"
  by (subst hex_of_nat.simps) simp

lemma hex_digit_0: "hex_digit 0 = CHR ''0''"
  by (simp add: hex_digit_def)

lemma hex_of_nat_byte:
  assumes "n < 256"
  shows "setw_setfill 2 (CHR ''0'') (hex_of_nat n) = [hex_digit (n div 16), hex_digit (n mod 16)]"
proof (cases "n < 16")
  case True
  then show ?thesis
    by (simp add: hex_of_nat_digit setw_setfill_def hex_digit_0)
next
  case False
  moreover have "n div 16 < 16" using assms by simp
  ultimately have "hex_of_nat n = [hex_digit (n div 16), hex_digit (n mod 16)]"
    by (subst hex_of_nat.simps) (simp add: hex_of_nat_digit)
  then show ?thesis by (simp add: setw_setfill_def)
qed

lemma hex_of_byte: "setw_setfill 2 (CHR ''0'') (hex_of_nat (unat (b :: 8 word))) = hex_byte b"
proof -
  have "unat b < 256" using unsigned_less [of b] by simp
  then show ?thesis by (simp add: hex_of_nat_byte hex_byte_def)
qed

lemma hex_digit_lowercase: "d < 16 \<Longrightarrow> hex_digit d \<in> set ''0123456789abcdef''"
  unfolding hex_digit_def by (rule nth_mem) simp

lemma hex_byte_lowercase: "set (hex_byte b) \<subseteq> set ''0123456789abcdef''"
proof -
  have "unat b < 256" using unsigned_less [of b] by simp
  then have "unat b div 16 < 16" and "unat b mod 16 < 16" by simp_all
  then have "hex_digit (unat b div 16) \<in> set ''0123456789abcdef''"
    and "hex_digit (unat b mod 16) \<in> set ''0123456789abcdef''"
    by (simp_all only: hex_digit_lowercase)
  then show ?thesis
    unfolding hex_byte_def by simp
qed

lemma stripped_len_step:
  "i < length pid \<Longrightarrow>
   stripped_len (take (Suc i) pid) = (if pid ! i \<noteq> 0 then Suc i else stripped_len (take i pid))"
  by (simp add: stripped_len_def take_Suc_conv_app_nth)

lemma ZidToStr_len_inv:
  "length pid = 16 \<Longrightarrow> i \<le> 16 \<Longrightarrow> len = int (stripped_len (take i pid)) \<Longrightarrow>
   ZidToStr_len pid i len = int (stripped_len pid)"
proof (induction pid i len rule: ZidToStr_len.induct)
  case (1 pid i len)
  show ?case
  proof (cases "i < 16")
    case True
    have "ZidToStr_len pid i len =
          ZidToStr_len pid (i + 1) (if pid ! i \<noteq> 0 then int i + 1 else len)"
      using True by (subst ZidToStr_len.simps) simp
    also have "\<dots> = int (stripped_len pid)"
      using True "1.prems" by (intro "1.IH") (simp_all add: stripped_len_step)
    finally show ?thesis .
  next
    case False
    then have "i = 16" using "1.prems" by simp
    then show ?thesis
      using "1.prems" by (subst ZidToStr_len.simps) simp
  qed
qed

lemma ZidToStr_hex_inv:
  "- 1 \<le> i \<Longrightarrow> i < int (length pid) \<Longrightarrow>
   ZidToStr_hex pid i ss = ss @ concat (map hex_byte (rev (take (nat (i + 1)) pid)))"
proof (induction pid i ss rule: ZidToStr_hex.induct)
  case (1 pid i ss)
  show ?case
  proof (cases "0 \<le> i")
    case True
    have n: "nat (i + 1) = Suc (nat i)" using True by simp
    have "ZidToStr_hex pid i ss = ZidToStr_hex pid (i - 1) (ss @ hex_byte (pid ! nat i))"
      using True by (subst ZidToStr_hex.simps) (simp add: hex_of_byte)
    also have "\<dots> = (ss @ hex_byte (pid ! nat i)) @
                      concat (map hex_byte (rev (take (nat (i - 1 + 1)) pid)))"
      using "1.IH" [OF True] True "1.prems" by (simp add: hex_of_byte)
    also have "\<dots> = ss @ concat (map hex_byte (rev (take (nat (i + 1)) pid)))"
      using True "1.prems" by (simp add: n take_Suc_conv_app_nth)
    finally show ?thesis .
  next
    case False
    then show ?thesis
      using "1.prems" by (subst ZidToStr_hex.simps) simp
  qed
qed

lemma rev_take_stripped:
  "rev (take (stripped_len pid) pid) = dropWhile (\<lambda>b. b = 0) (rev pid)"
proof -
  let ?P = "\<lambda>b :: 8 word. b = 0"
  have "length (takeWhile ?P (rev pid)) + length (dropWhile ?P (rev pid)) = length pid"
    by (metis length_append length_rev takeWhile_dropWhile_id)
  then have "length pid - stripped_len pid = length (takeWhile ?P (rev pid))"
    by (simp add: stripped_len_def)
  then show ?thesis
    by (simp add: rev_take dropWhile_eq_drop)
qed

lemma ZidToStr_eq_render:
  assumes "length pid = 16"
  shows "ZidToStr pid = zid_render pid"
proof -
  have len: "ZidToStr_len pid 0 0 = int (stripped_len pid)"
    using assms by (intro ZidToStr_len_inv) (simp_all add: stripped_len_def)
  have le: "stripped_len pid \<le> length pid"
    by (simp add: stripped_len_def) (metis length_dropWhile_le length_rev)
  show ?thesis
  proof (cases "stripped_len pid = 0")
    case True
    then have d: "dropWhile (\<lambda>b. b = 0) (rev pid) = []"
      by (simp add: stripped_len_def)
    show ?thesis
      by (simp only: ZidToStr_def len zid_render_def d True Let_def) simp
  next
    case False
    have "ZidToStr_hex pid (int (stripped_len pid) - 1) [] =
          [] @ concat (map hex_byte (rev (take (nat (int (stripped_len pid) - 1 + 1)) pid)))"
      using le by (intro ZidToStr_hex_inv) simp_all
    then show ?thesis
      using False by (simp add: ZidToStr_def len zid_render_def rev_take_stripped)
  qed
qed

lemma zid_render_all_zero: "zid_render (replicate n 0) = []"
  by (simp add: zid_render_def)

text \<open>
  C9. For an identity of 16 bytes, least significant first, \<open>ZidToStr\<close> drops the zero
  bytes at the high end and writes the bytes that are left from the most significant
  down, each as the two lowercase hexadecimal digits of \<open>hex_byte\<close>, a zero byte in
  between as \<open>00\<close>; the identity of 16 zero bytes gives the empty string.
\<close>

theorem ZidToStr_strips_and_renders:
  assumes "length pid = 16"
  shows "ZidToStr pid = concat (map hex_byte (dropWhile (\<lambda>b. b = 0) (rev pid))) \<and>
         length (hex_byte b) = 2 \<and>
         set (hex_byte b) \<subseteq> set ''0123456789abcdef'' \<and>
         hex_byte 0 = ''00'' \<and>
         ZidToStr (replicate 16 0) = []"
proof -
  have "ZidToStr (replicate 16 0) = zid_render (replicate 16 0)"
    by (rule ZidToStr_eq_render) simp
  then have "ZidToStr (replicate 16 0) = []"
    by (simp only: zid_render_all_zero)
  moreover have "hex_byte 0 = ''00''"
    by (simp add: hex_byte_def hex_digit_def)
  moreover have "length (hex_byte b) = 2"
    by (simp add: hex_byte_def)
  moreover have "ZidToStr pid = concat (map hex_byte (dropWhile (\<lambda>b. b = 0) (rev pid)))"
    using ZidToStr_eq_render [OF assms] by (simp add: zid_render_def)
  ultimately show ?thesis
    using hex_byte_lowercase [of b] by blast
qed

theorem ZidToStr_strips_and_renders_witness:
  "length [0x01, 0, 0xAB, 0, 0, 0, 0, 0, 0, 0, 0, 0, 0, 0, 0, 0 :: 8 word] = 16 \<and>
   ZidToStr [0x01, 0, 0xAB, 0, 0, 0, 0, 0, 0, 0, 0, 0, 0, 0, 0, 0] = ''ab0001''"
proof -
  have l: "length [0x01, 0, 0xAB, 0, 0, 0, 0, 0, 0, 0, 0, 0, 0, 0, 0, 0 :: 8 word] = 16"
    by simp
  have "ZidToStr [0x01, 0, 0xAB, 0, 0, 0, 0, 0, 0, 0, 0, 0, 0, 0, 0, 0] =
        concat (map hex_byte
          (dropWhile (\<lambda>b. b = 0) (rev [0x01, 0, 0xAB, 0, 0, 0, 0, 0, 0, 0, 0, 0, 0, 0, 0, 0])))"
    using ZidToStr_strips_and_renders [OF l] by blast
  then show ?thesis
    by (simp add: hex_byte_def hex_digit_def)
qed

section \<open>Properties of the context\<close>

lemma shutdown_when_shut_down:
  "is_shutdown d \<Longrightarrow> shutdown close_result d = (RMW_RET_OK, d)"
  by (simp add: shutdown_def)

lemma shutdown_OK_is_shutdown:
  "shutdown close_result d = (RMW_RET_OK, d') \<Longrightarrow> is_shutdown d'"
  by (auto simp add: shutdown_def Let_def split: if_splits)

lemma shutdown_OK_calls:
  "\<not> is_shutdown d \<Longrightarrow> shutdown close_result d = (RMW_RET_OK, d') \<Longrightarrow>
   zenoh_calls d' = zenoh_calls d @ z_undeclare_subscriber #
             (if shm_provider d \<noteq> None then [z_drop_shm_provider] else []) @ [z_close]"
  by (auto simp add: shutdown_def Let_def split: if_splits)

text \<open>
  C5. After a call of \<open>shutdown\<close> that returned success, a second call returns success
  and leaves the state as it is, whatever closing the session would answer, and so does
  the destructor: no call into the transport is added. Counted from a context that was
  not shut down, the subscription has been undeclared once, the shared-memory provider
  dropped once if there is one, and the session closed once.
\<close>

theorem shutdown_idempotent:
  assumes "shutdown close_result d = (RMW_RET_OK, d')"
  shows "shutdown close_result2 d' = (RMW_RET_OK, d') \<and>
         Data_dtor close_result3 d' = d' \<and>
         (is_shutdown d \<or>
            zenoh_calls (snd (shutdown close_result2 d')) =
              zenoh_calls d @ z_undeclare_subscriber #
                (if shm_provider d \<noteq> None then [z_drop_shm_provider] else []) @ [z_close])"
proof -
  have s: "is_shutdown d'"
    using assms by (rule shutdown_OK_is_shutdown)
  have again: "shutdown c d' = (RMW_RET_OK, d')" for c
    using s by (rule shutdown_when_shut_down)
  show ?thesis
  proof (cases "is_shutdown d")
    case True
    then show ?thesis by (simp add: again Data_dtor_def)
  next
    case False
    then show ?thesis
      using shutdown_OK_calls [OF False assms] by (simp add: again Data_dtor_def)
  qed
qed

theorem shutdown_idempotent_witness:
  "shutdown Z_OK (Data_ctor ''enclave'' (Some Valid) ''@ros2_lv/0/**'') =
     (RMW_RET_OK, snd (shutdown Z_OK (Data_ctor ''enclave'' (Some Valid) ''@ros2_lv/0/**''))) \<and>
   shutdown 1 (snd (shutdown Z_OK (Data_ctor ''enclave'' (Some Valid) ''@ros2_lv/0/**''))) =
     (RMW_RET_OK, snd (shutdown Z_OK (Data_ctor ''enclave'' (Some Valid) ''@ros2_lv/0/**''))) \<and>
   Data_dtor Z_OK (snd (shutdown Z_OK (Data_ctor ''enclave'' (Some Valid) ''@ros2_lv/0/**''))) =
     snd (shutdown Z_OK (Data_ctor ''enclave'' (Some Valid) ''@ros2_lv/0/**'')) \<and>
   zenoh_calls
     (snd (shutdown 1 (snd (shutdown Z_OK (Data_ctor ''enclave'' (Some Valid) ''@ros2_lv/0/**''))))) =
     [z_undeclare_subscriber, z_drop_shm_provider, z_close]"
proof -
  let ?d = "Data_ctor ''enclave'' (Some Valid) ''@ros2_lv/0/**''"
  let ?d' = "snd (shutdown Z_OK ?d)"
  have first: "shutdown Z_OK ?d = (RMW_RET_OK, ?d')"
    by (simp add: shutdown_def Data_ctor_def Let_def)
  have fresh: "\<not> is_shutdown ?d"
    by (simp add: Data_ctor_def)
  note twice = shutdown_idempotent [OF first, of 1 Z_OK]
  have second: "shutdown 1 ?d' = (RMW_RET_OK, ?d')"
    using twice by blast
  have dtor: "Data_dtor Z_OK ?d' = ?d'"
    using twice by blast
  have "zenoh_calls (snd (shutdown 1 ?d')) =
        zenoh_calls ?d @ z_undeclare_subscriber #
          (if shm_provider ?d \<noteq> None then [z_drop_shm_provider] else []) @ [z_close]"
    using twice fresh by blast
  also have "\<dots> = [z_undeclare_subscriber, z_drop_shm_provider, z_close]"
    by (simp add: Data_ctor_def)
  finally have calls: "zenoh_calls (snd (shutdown 1 ?d')) =
        [z_undeclare_subscriber, z_drop_shm_provider, z_close]" .
  show ?thesis
    by (intro conjI) (rule first second dtor calls)+
qed

text \<open>
  C6. When closing the session fails in a call of \<open>shutdown\<close> on a context that is not
  shut down, the call returns an error and \<open>is_shutdown\<close> stays false, although the
  subscription has been undeclared, the shared-memory provider dropped if there is one,
  and the session handed to \<open>z_close\<close>.
\<close>

theorem shutdown_close_failure:
  assumes "\<not> is_shutdown d" and "close_result \<noteq> Z_OK"
  shows "fst (shutdown close_result d) = RMW_RET_ERROR \<and>
         \<not> is_shutdown (snd (shutdown close_result d)) \<and>
         graph_subscriber (snd (shutdown close_result d)) = Moved \<and>
         (shm_provider d = None \<or> shm_provider (snd (shutdown close_result d)) = Some Moved) \<and>
         zenoh_calls (snd (shutdown close_result d)) =
           zenoh_calls d @ z_undeclare_subscriber #
             (if shm_provider d \<noteq> None then [z_drop_shm_provider] else []) @ [z_close]"
  using assms by (simp add: shutdown_def Let_def)

theorem shutdown_close_failure_witness:
  "\<not> is_shutdown (Data_ctor ''enclave'' (Some Valid) ''@ros2_lv/0/**'') \<and>
   (1 :: z_result_t) \<noteq> Z_OK \<and>
   fst (shutdown 1 (Data_ctor ''enclave'' (Some Valid) ''@ros2_lv/0/**'')) = RMW_RET_ERROR \<and>
   \<not> is_shutdown (snd (shutdown 1 (Data_ctor ''enclave'' (Some Valid) ''@ros2_lv/0/**''))) \<and>
   zenoh_calls (snd (shutdown 1 (Data_ctor ''enclave'' (Some Valid) ''@ros2_lv/0/**''))) =
     [z_undeclare_subscriber, z_drop_shm_provider, z_close]"
proof -
  let ?d = "Data_ctor ''enclave'' (Some Valid) ''@ros2_lv/0/**''"
  have fresh: "\<not> is_shutdown ?d" "zenoh_calls ?d = []" "shm_provider ?d \<noteq> None"
    by (simp_all add: Data_ctor_def)
  have fails: "(1 :: z_result_t) \<noteq> Z_OK"
    by (simp add: Z_OK_def)
  show ?thesis
    using fresh fails shutdown_close_failure [OF fresh(1) fails] by simp
qed

text \<open>
  C7. A call of \<open>graph_sub_data_handler\<close> that finds \<open>is_shutdown\<close> true returns at
  once: the state is the same afterwards, so the graph cache has received neither
  \<open>parse_put\<close> nor \<open>parse_del\<close> and the guard condition has not been triggered.
\<close>

theorem graph_sub_data_handler_after_shutdown:
  assumes "is_shutdown data_ptr"
  shows "graph_sub_data_handler sample (Some data_ptr) = Some data_ptr"
  using assms by (simp add: graph_sub_data_handler_def)

theorem graph_sub_data_handler_after_shutdown_witness:
  "is_shutdown (snd (shutdown Z_OK (Data_ctor ''enclave'' None ''@ros2_lv/0/**''))) \<and>
   graph_sub_data_handler
     \<lparr>z_sample_keyexpr = ''@ros2_lv/0/x'', z_sample_kind = Z_SAMPLE_KIND_PUT\<rparr>
     (Some (snd (shutdown Z_OK (Data_ctor ''enclave'' None ''@ros2_lv/0/**'')))) =
   Some (snd (shutdown Z_OK (Data_ctor ''enclave'' None ''@ros2_lv/0/**'')))"
proof -
  have h: "is_shutdown (snd (shutdown Z_OK (Data_ctor ''enclave'' None ''@ros2_lv/0/**'')))"
    by (simp add: shutdown_def Data_ctor_def)
  show ?thesis
    using h graph_sub_data_handler_after_shutdown [OF h] by simp
qed

text \<open>Before the shutdown the same sample does reach the graph cache and the guard
  condition.\<close>

lemma graph_sub_data_handler_before_shutdown:
  "graph_sub_data_handler
     \<lparr>z_sample_keyexpr = ''@ros2_lv/0/x'', z_sample_kind = Z_SAMPLE_KIND_PUT\<rparr>
     (Some (Data_ctor ''enclave'' None ''@ros2_lv/0/**'')) =
   Some ((Data_ctor ''enclave'' None ''@ros2_lv/0/**'')
     \<lparr>graph_cache := [parse_put ''@ros2_lv/0/x''], graph_guard_condition := 1\<rparr>)"
  by (simp add: graph_sub_data_handler_def Data_ctor_def rmw_trigger_guard_condition_def)

text \<open>
  C10. A call of \<open>subscribe_to_ros_graph\<close> that finds \<open>is_initialized\<close> true returns
  success at once: no second subscription is declared and the state is the same
  afterwards, whatever a declaration would have answered.
\<close>

theorem subscribe_to_ros_graph_idempotent:
  assumes "is_initialized d"
  shows "subscribe_to_ros_graph declare_result d = (RMW_RET_OK, d)"
  using assms by (simp add: subscribe_to_ros_graph_def)

theorem subscribe_to_ros_graph_idempotent_witness:
  "is_initialized (snd (subscribe_to_ros_graph Z_OK (Data_ctor ''enclave'' None ''@ros2_lv/0/**''))) \<and>
   subscribe_to_ros_graph 1
     (snd (subscribe_to_ros_graph Z_OK (Data_ctor ''enclave'' None ''@ros2_lv/0/**''))) =
   (RMW_RET_OK, snd (subscribe_to_ros_graph Z_OK (Data_ctor ''enclave'' None ''@ros2_lv/0/**''))) \<and>
   zenoh_calls (snd (subscribe_to_ros_graph 1
     (snd (subscribe_to_ros_graph Z_OK (Data_ctor ''enclave'' None ''@ros2_lv/0/**''))))) =
   [zc_liveliness_declare_subscriber ''@ros2_lv/0/**'']"
proof -
  let ?d = "snd (subscribe_to_ros_graph Z_OK (Data_ctor ''enclave'' None ''@ros2_lv/0/**''))"
  have h: "is_initialized ?d"
    by (simp add: subscribe_to_ros_graph_def Data_ctor_def Let_def)
  have calls: "zenoh_calls ?d = [zc_liveliness_declare_subscriber ''@ros2_lv/0/**'']"
    by (simp add: subscribe_to_ros_graph_def Data_ctor_def Let_def)
  show ?thesis
    using h calls subscribe_to_ros_graph_idempotent [OF h, of 1] by simp
qed

end
